theory Spec2Isabelle
  imports Main "HOL-Library.Word" "HOL-Library.Log_Nat"
begin

section \<open>Strings\<close>

text \<open>
  A JavaScript string is a sequence of UTF-16 code units; \<open>length\<close>, indexing and the
  regular expressions of the source (none has the \<open>u\<close> flag) all work on code units.
\<close>

type_synonym code_unit = "16 word"
type_synonym jsstring = "code_unit list"

text \<open>String literals of the source, all ASCII, are written through \<open>js\<close>.\<close>

definition js :: "string \<Rightarrow> jsstring" where
  "js s = map (\<lambda>c. of_nat (of_char c)) s"

definition in_range :: "code_unit \<Rightarrow> code_unit \<Rightarrow> code_unit \<Rightarrow> bool" where
  "in_range lo hi c = (lo \<le> c \<and> c \<le> hi)"

text \<open>\<open>\d\<close> is \<open>[0-9]\<close>.\<close>

definition is_digit :: "code_unit \<Rightarrow> bool" where
  "is_digit c = in_range 0x30 0x39 c"

text \<open>\<open>\w\<close> is \<open>[A-Za-z0-9_]\<close>; it decides the word boundary \<open>\b\<close>.\<close>

definition is_word_char :: "code_unit \<Rightarrow> bool" where
  "is_word_char c =
     (in_range 0x61 0x7A c \<or> in_range 0x41 0x5A c \<or> in_range 0x30 0x39 c \<or> c = 0x5F)"

text \<open>
  Line terminators of ECMAScript: LF, CR, LINE SEPARATOR, PARAGRAPH SEPARATOR. The
  pattern character \<open>.\<close> (without the \<open>s\<close> flag) matches every code unit but these.
\<close>

definition is_line_terminator :: "code_unit \<Rightarrow> bool" where
  "is_line_terminator c = (c = 0x000A \<or> c = 0x000D \<or> c = 0x2028 \<or> c = 0x2029)"

text \<open>
  \<open>\s\<close> is ECMAScript's WhiteSpace and LineTerminator: TAB, VT, FF, SP, NBSP, the
  byte order mark, the Unicode space separators, and the four line terminators.
\<close>

definition is_space :: "code_unit \<Rightarrow> bool" where
  "is_space c =
     (c = 0x0009 \<or> c = 0x000B \<or> c = 0x000C \<or> c = 0x0020 \<or> c = 0x00A0 \<or> c = 0xFEFF
      \<or> c = 0x1680 \<or> in_range 0x2000 0x200A c \<or> c = 0x202F \<or> c = 0x205F \<or> c = 0x3000
      \<or> is_line_terminator c)"

text \<open>
  Canonicalize of the regular expression semantics, for the \<open>i\<close> flag without the
  \<open>u\<close> flag: a code unit is compared through its upper-case form, except that a code
  unit from 128 on is never mapped below 128. The flagged patterns of the source hold
  ASCII characters only, so what matters of a code unit from 128 on is that it stays
  there; it is left as it is.
\<close>

definition canonicalize :: "bool \<Rightarrow> code_unit \<Rightarrow> code_unit" where
  "canonicalize ignoreCase c = (if ignoreCase \<and> in_range 0x61 0x7A c then c - 0x20 else c)"

section \<open>Regular expressions\<close>

datatype class_item = Single code_unit | Range code_unit code_unit

text \<open>
  The fragment of the pattern language that the source uses. \<open>Class neg items\<close> is
  \<open>[...]\<close>, or \<open>[^...]\<close> when \<open>neg\<close> holds; \<open>Group k r\<close> is the \<open>k\<close>-th capturing
  group; \<open>Star\<close> is the greedy \<open>*\<close>.
\<close>

datatype regex =
    Empty
  | Char code_unit
  | Dot
  | Digit
  | Space
  | Class bool "class_item list"
  | WordBoundary
  | Backref nat
  | Group nat regex
  | Seq regex regex
  | Alt regex regex
  | Star regex

text \<open>\<open>r+\<close> and \<open>r{n}\<close>, for an \<open>r\<close> without capturing groups.\<close>

definition plus :: "regex \<Rightarrow> regex" where
  "plus r = Seq r (Star r)"

fun times :: "nat \<Rightarrow> regex \<Rightarrow> regex" where
  "times 0 r = Empty"
| "times (Suc 0) r = r"
| "times (Suc n) r = Seq r (times n r)"

text \<open>A run of literal characters.\<close>

fun lit :: "string \<Rightarrow> regex" where
  "lit [] = Empty"
| "lit [c] = Char (of_nat (of_char c))"
| "lit (c # cs) = Seq (Char (of_nat (of_char c))) (lit cs)"

fun seqs :: "regex list \<Rightarrow> regex" where
  "seqs [] = Empty"
| "seqs [r] = r"
| "seqs (r # rs) = Seq r (seqs rs)"

fun class_member :: "class_item \<Rightarrow> code_unit \<Rightarrow> bool" where
  "class_member (Single a) c = (c = a)"
| "class_member (Range a b) c = in_range a b c"

text \<open>
  A matcher state is the end index reached and the captures made so far. The matcher
  returns the states in which a pattern can end from a given state, in the order in
  which backtracking tries them: the head of the list is the match the engine reports.
\<close>

type_synonym captures = "nat \<rightharpoonup> jsstring"
type_synonym mstate = "nat \<times> captures"

definition word_at :: "jsstring \<Rightarrow> int \<Rightarrow> bool" where
  "word_at s e = (0 \<le> e \<and> e < int (length s) \<and> is_word_char (s ! nat e))"

text \<open>
  As in the language, an iteration of \<open>*\<close> that consumes nothing is rejected; an end
  index never lies beyond the input.
\<close>

function (sequential) rmatch :: "bool \<Rightarrow> regex \<Rightarrow> jsstring \<Rightarrow> mstate \<Rightarrow> mstate list" where
  "rmatch ic Empty s st = [st]"
| "rmatch ic (Char a) s (i, c) =
     (if i < length s \<and> canonicalize ic (s ! i) = canonicalize ic a then [(Suc i, c)] else [])"
| "rmatch ic Dot s (i, c) =
     (if i < length s \<and> \<not> is_line_terminator (s ! i) then [(Suc i, c)] else [])"
| "rmatch ic Digit s (i, c) =
     (if i < length s \<and> is_digit (s ! i) then [(Suc i, c)] else [])"
| "rmatch ic Space s (i, c) =
     (if i < length s \<and> is_space (s ! i) then [(Suc i, c)] else [])"
| "rmatch ic (Class neg items) s (i, c) =
     (if i < length s \<and> (list_ex (\<lambda>it. class_member it (s ! i)) items \<noteq> neg)
      then [(Suc i, c)] else [])"
| "rmatch ic WordBoundary s (i, c) =
     (if word_at s (int i - 1) \<noteq> word_at s (int i) then [(i, c)] else [])"
| "rmatch ic (Backref k) s (i, c) =
     (case c k of
        None \<Rightarrow> [(i, c)]
      | Some w \<Rightarrow> if take (length w) (drop i s) = w then [(i + length w, c)] else [])"
| "rmatch ic (Group k r) s (i, c) =
     map (\<lambda>(j, c'). (j, c'(k \<mapsto> take (j - i) (drop i s)))) (rmatch ic r s (i, c))"
| "rmatch ic (Seq a b) s st = concat (map (rmatch ic b s) (rmatch ic a s st))"
| "rmatch ic (Alt a b) s st = rmatch ic a s st @ rmatch ic b s st"
| "rmatch ic (Star a) s st =
     concat (map (\<lambda>st'. if fst st < fst st' \<and> fst st' \<le> length s
                         then rmatch ic (Star a) s st' else [])
                 (rmatch ic a s st)) @ [st]"
  by pat_completeness auto
termination
  by (relation "measures [\<lambda>(ic, r, s, st). size r, \<lambda>(ic, r, s, st). length s - fst st]") auto

text \<open>The equation of \<open>Star\<close> is unfolded by hand only: it calls itself.\<close>

lemmas rmatch_Star = rmatch.simps(12)

declare rmatch.simps(12) [simp del]

text \<open>A pattern with its flags.\<close>

record regexp =
  pattern :: regex
  ignoreCase :: bool

text \<open>The match that starts at index \<open>i\<close>: where it ends and what it captured.\<close>

definition match_at :: "regexp \<Rightarrow> jsstring \<Rightarrow> nat \<Rightarrow> mstate option" where
  "match_at re s i =
     (case rmatch (ignoreCase re) (pattern re) s (i, Map.empty) of
        [] \<Rightarrow> None | st # _ \<Rightarrow> Some st)"

text \<open>
  \<open>exec\<close> from a start index: the leftmost index from there on at which the pattern
  matches, with the end and the captures of that match; \<open>None\<close> is JavaScript's null.
\<close>

fun exec_from :: "regexp \<Rightarrow> jsstring \<Rightarrow> nat list \<Rightarrow> (nat \<times> mstate) option" where
  "exec_from re s [] = None"
| "exec_from re s (i # is) =
     (case match_at re s i of None \<Rightarrow> exec_from re s is | Some st \<Rightarrow> Some (i, st))"

definition exec :: "regexp \<Rightarrow> jsstring \<Rightarrow> (nat \<times> mstate) option" where
  "exec re s = exec_from re s [0..<Suc (length s)]"

text \<open>\<open>re.test(s)\<close>.\<close>

definition test :: "regexp \<Rightarrow> jsstring \<Rightarrow> bool" where
  "test re s = (exec re s \<noteq> None)"

text \<open>
  End indices of the matcher never move backwards and never leave the input; the loops
  of \<open>split\<close> and \<open>replace\<close> below terminate by this.
\<close>

lemma rmatch_bounds:
  "(j, c') \<in> set (rmatch ic r s (i, c)) \<Longrightarrow> i \<le> j \<and> (i \<le> length s \<longrightarrow> j \<le> length s)"
proof (induction ic r s "(i, c)" arbitrary: i c j c' rule: rmatch.induct)
  case (8 ic k s i c)
  then show ?case
  proof (cases "c k")
    case None
    with 8 show ?thesis by simp
  next
    case (Some w)
    with 8 have w: "take (length w) (drop i s) = w" and j: "j = i + length w"
      by (auto split: if_splits)
    from w have "length (take (length w) (drop i s)) = length w"
      by simp
    then have "length w \<le> length s - i"
      by simp
    with j show ?thesis by auto
  qed
next
  case (9 ic k r s i c)
  from 9(2) obtain c0 where "(j, c0) \<in> set (rmatch ic r s (i, c))"
    by auto
  then show ?case
    by (rule 9(1))
next
  case (10 ic a b s)
  from 10(3) obtain m cm where m: "(m, cm) \<in> set (rmatch ic a s (i, c))"
    and jm: "(j, c') \<in> set (rmatch ic b s (m, cm))"
    by auto
  from "10.hyps"(1) [OF m] "10.hyps"(2) [OF m jm] show ?case by auto
next
  case (11 ic a b s)
  from 11(3) have "(j, c') \<in> set (rmatch ic a s (i, c)) \<or> (j, c') \<in> set (rmatch ic b s (i, c))"
    by simp
  with 11(1,2) show ?case
    by blast
next
  case (12 ic a s)
  from 12(3) have "(j, c') \<in> set (concat (map (\<lambda>st'. if fst (i, c) < fst st' \<and> fst st' \<le> length s
                         then rmatch ic (Star a) s st' else [])
                 (rmatch ic a s (i, c))) @ [(i, c)])"
    by (subst (asm) rmatch_Star)
  then consider "(j, c') = (i, c)"
    | m cm where "(m, cm) \<in> set (rmatch ic a s (i, c))" "i < m" "m \<le> length s"
        "(j, c') \<in> set (rmatch ic (Star a) s (m, cm))"
    by (auto split: if_splits)
  then show ?case
  proof cases
    case 1
    then show ?thesis by simp
  next
    case 2
    from 2(2,3) have "fst (i, c) < fst (m, cm) \<and> fst (m, cm) \<le> length s" by simp
    from "12.hyps"(2) [OF 2(1) this 2(4)] 2(2,3) show ?thesis by auto
  qed
qed (simp_all split: if_splits)

lemma match_at_bounds:
  "match_at re s i = Some (j, c) \<Longrightarrow> i \<le> j \<and> (i \<le> length s \<longrightarrow> j \<le> length s)"
proof -
  assume "match_at re s i = Some (j, c)"
  then have "(j, c) \<in> set (rmatch (ignoreCase re) (pattern re) s (i, Map.empty))"
    by (auto simp: match_at_def split: list.splits)
  then show ?thesis
    by (rule rmatch_bounds)
qed

lemma exec_from_bounds:
  "exec_from re s is = Some (i, (j, c)) \<Longrightarrow> i \<in> set is \<and> match_at re s i = Some (j, c)"
  by (induction "is") (auto split: option.splits)

section \<open>String methods\<close>

text \<open>
  \<open>s.match(re)\<close> for a pattern without the \<open>g\<close> flag: null, or the array of the
  matched substring and the captures of the groups, a group that took no part being
  undefined (\<open>None\<close>).
\<close>

fun ngroups :: "regex \<Rightarrow> nat" where
  "ngroups (Group k r) = Suc (ngroups r)"
| "ngroups (Seq a b) = ngroups a + ngroups b"
| "ngroups (Alt a b) = ngroups a + ngroups b"
| "ngroups (Star a) = ngroups a"
| "ngroups r = 0"

definition str_match :: "jsstring \<Rightarrow> regexp \<Rightarrow> jsstring option list option" where
  "str_match s re =
     (case exec re s of
        None \<Rightarrow> None
      | Some (i, (j, c)) \<Rightarrow>
          Some (Some (take (j - i) (drop i s)) # map c [1..<Suc (ngroups (pattern re))]))"

text \<open>
  \<open>s.split(re)\<close>, for a pattern without capturing groups: the pattern is tried at
  each index \<open>q\<close> in turn; a match that ends at the start \<open>p\<close> of the current piece is
  skipped, any other closes the piece and the next one starts at its end.
\<close>

function split_loop :: "regexp \<Rightarrow> jsstring \<Rightarrow> nat \<Rightarrow> nat \<Rightarrow> jsstring list" where
  "split_loop re s p q =
     (if q < length s then
        (case match_at re s q of
           None \<Rightarrow> split_loop re s p (Suc q)
         | Some (e, c) \<Rightarrow>
             if e = p then split_loop re s p (Suc q)
             else take (q - p) (drop p s) # split_loop re s e e)
      else [drop p s])"
  by pat_completeness auto
termination
proof (relation "measures [\<lambda>(re, s, p, q). length s - q, \<lambda>(re, s, p, q). if p = q then 0 else 1]",
    goal_cases)
  case (4 re s p q x e c)
  then have "q \<le> e" "e \<le> length s"
    using match_at_bounds [of re s q e c] by auto
  with 4 show ?case by auto
qed auto

declare split_loop.simps [simp del]

definition str_split :: "jsstring \<Rightarrow> regexp \<Rightarrow> jsstring list" where
  "str_split s re =
     (if length s = 0 then (if match_at re s 0 \<noteq> None then [] else [s])
      else split_loop re s 0 0)"

text \<open>
  \<open>s.replace(re, repl)\<close> for a pattern with the \<open>g\<close> flag and a replacement
  without \<open>$\<close>: every match, searched from the end of the one before (one further
  after an empty match), is replaced.
\<close>

function replace_loop :: "regexp \<Rightarrow> jsstring \<Rightarrow> jsstring \<Rightarrow> nat \<Rightarrow> nat \<Rightarrow> jsstring" where
  "replace_loop re repl s lastIndex nextPos =
     (case exec_from re s [lastIndex..<Suc (length s)] of
        None \<Rightarrow> drop nextPos s
      | Some (i, (j, c)) \<Rightarrow>
          take (i - nextPos) (drop nextPos s) @ repl
            @ replace_loop re repl s (if j = i then Suc j else j) j)"
  by pat_completeness auto
termination
proof (relation "measure (\<lambda>(re, repl, s, lastIndex, nextPos). Suc (length s) - lastIndex)",
    goal_cases)
  case (2 re repl s lastIndex nextPos x i y j c)
  then have "lastIndex \<le> i" "i \<le> length s" "i \<le> j"
    using exec_from_bounds [of re s "[lastIndex..<Suc (length s)]" i j c]
      match_at_bounds [of re s i j c] by auto
  then show ?case by auto
qed auto

declare replace_loop.simps [simp del]

definition str_replace :: "jsstring \<Rightarrow> regexp \<Rightarrow> jsstring \<Rightarrow> jsstring" where
  "str_replace s re repl = replace_loop re repl s 0 0"

text \<open>
  \<open>s.toLowerCase()\<close>. The letters A to Z go to a to z; KELVIN SIGN goes to k and
  LATIN CAPITAL LETTER I WITH DOT ABOVE to i followed by COMBINING DOT ABOVE. These
  are all the code units whose lower-case form holds a code unit in a to z. The
  lower-case forms of the others are not tabulated: the only caller removes every code
  unit outside a to z from the result, so they are left as they are.
\<close>

definition lower_unit :: "code_unit \<Rightarrow> jsstring" where
  "lower_unit c =
     (if in_range 0x41 0x5A c then [c + 0x20]
      else if c = 0x212A then [0x6B]
      else if c = 0x0130 then [0x69, 0x0307]
      else [c])"

definition toLowerCase :: "jsstring \<Rightarrow> jsstring" where
  "toLowerCase s = concat (map lower_unit s)"

text \<open>\<open>s.split('')\<close>, \<open>a.reverse()\<close> and \<open>a.join('')\<close>.\<close>

definition split_units :: "jsstring \<Rightarrow> jsstring list" where
  "split_units s = map (\<lambda>c. [c]) s"

definition reverse :: "'a list \<Rightarrow> 'a list" where
  "reverse a = rev a"

definition join :: "jsstring list \<Rightarrow> jsstring" where
  "join a = concat a"

section \<open>Numbers\<close>

text \<open>
  A JavaScript number is an IEEE 754 double. The finite ones are modelled by the
  rational they stand for; minus zero is not told apart from zero, which no operation
  used here (\<open>===\<close> and the arithmetic of non-negative operands) can observe.
\<close>

datatype number = Finite rat | PosInf | NegInf | NaN

text \<open>The integer \<open>e\<close> with \<open>2 ^ e \<le> x < 2 ^ (e + 1)\<close>, for a positive \<open>x\<close>.\<close>

definition log2_floor :: "rat \<Rightarrow> int" where
  "log2_floor x =
     (if 1 \<le> x then bitlen \<lfloor>x\<rfloor> - 1
      else let k = bitlen \<lfloor>1 / x\<rfloor> - 1 in if 2 powi (- k) \<le> x then - k else - k - 1)"

text \<open>Rounding to the nearest integer, a tie going to the even one.\<close>

definition round_half_even :: "rat \<Rightarrow> int" where
  "round_half_even y =
     (let f = \<lfloor>y\<rfloor>; r = y - of_int f
      in if r < 1 / 2 then f else if 1 / 2 < r then f + 1 else if even f then f else f + 1)"

text \<open>
  The double nearest to a rational: 53 significant bits, exponents from -1074 on
  (subnormal numbers below \<open>2 ^ -1022\<close>), infinity from \<open>2 ^ 1024\<close> on.
\<close>

definition round_double :: "rat \<Rightarrow> number" where
  "round_double x =
     (if x = 0 then Finite 0
      else let a = \<bar>x\<bar>;
               q = max (log2_floor a - 52) (- 1074);
               v = of_int (round_half_even (a / 2 powi q)) * 2 powi q
           in if 2 ^ 1024 \<le> v then (if 0 < x then PosInf else NegInf)
              else Finite (if 0 < x then v else - v))"

fun num_neg :: "number \<Rightarrow> number" where
  "num_neg (Finite x) = Finite (- x)"
| "num_neg PosInf = NegInf"
| "num_neg NegInf = PosInf"
| "num_neg NaN = NaN"

fun num_add :: "number \<Rightarrow> number \<Rightarrow> number" where
  "num_add NaN y = NaN"
| "num_add x NaN = NaN"
| "num_add (Finite x) (Finite y) = round_double (x + y)"
| "num_add PosInf NegInf = NaN"
| "num_add NegInf PosInf = NaN"
| "num_add PosInf y = PosInf"
| "num_add NegInf y = NegInf"
| "num_add x PosInf = PosInf"
| "num_add x NegInf = NegInf"

definition num_sub :: "number \<Rightarrow> number \<Rightarrow> number" where
  "num_sub x y = num_add x (num_neg y)"

fun num_sign :: "number \<Rightarrow> int" where
  "num_sign (Finite x) = sgn \<lfloor>x\<rfloor> + (if x = 0 then 0 else if \<lfloor>x\<rfloor> = 0 then 1 else 0)"
| "num_sign PosInf = 1"
| "num_sign NegInf = - 1"
| "num_sign NaN = 0"

fun num_mul :: "number \<Rightarrow> number \<Rightarrow> number" where
  "num_mul NaN y = NaN"
| "num_mul x NaN = NaN"
| "num_mul (Finite x) (Finite y) = round_double (x * y)"
| "num_mul x y =
     (if num_sign x * num_sign y = 0 then NaN
      else if 0 < num_sign x * num_sign y then PosInf else NegInf)"

text \<open>A zero divisor is taken as plus zero.\<close>

fun num_div :: "number \<Rightarrow> number \<Rightarrow> number" where
  "num_div NaN y = NaN"
| "num_div x NaN = NaN"
| "num_div (Finite x) (Finite y) =
     (if y = 0 then (if x = 0 then NaN else if 0 < x then PosInf else NegInf)
      else round_double (x / y))"
| "num_div (Finite x) y = Finite 0"
| "num_div x (Finite y) = (if (x = PosInf) = (0 \<le> y) then PosInf else NegInf)"
| "num_div x y = NaN"

text \<open>\<open>x === y\<close> on numbers.\<close>

fun strict_eq :: "number \<Rightarrow> number \<Rightarrow> bool" where
  "strict_eq NaN y = False"
| "strict_eq x NaN = False"
| "strict_eq x y = (x = y)"

text \<open>
  \<open>parseInt(s)\<close> without a radix: leading white space and a sign are skipped, a prefix
  \<open>0x\<close> or \<open>0X\<close> selects radix 16, and the longest run of digits that follows is read;
  no digit gives NaN. The integer read is rounded to the nearest double.
\<close>

definition digit_value :: "code_unit \<Rightarrow> nat option" where
  "digit_value c =
     (if in_range 0x30 0x39 c then Some (unat c - 0x30)
      else if in_range 0x61 0x7A c then Some (unat c - 0x61 + 10)
      else if in_range 0x41 0x5A c then Some (unat c - 0x41 + 10)
      else None)"

definition is_radix_digit :: "nat \<Rightarrow> code_unit \<Rightarrow> bool" where
  "is_radix_digit R c = (case digit_value c of None \<Rightarrow> False | Some v \<Rightarrow> v < R)"

definition math_int :: "nat \<Rightarrow> jsstring \<Rightarrow> nat" where
  "math_int R Z = foldl (\<lambda>acc c. acc * R + the (digit_value c)) 0 Z"

definition parseInt :: "jsstring \<Rightarrow> number" where
  "parseInt string =
     (let S = dropWhile is_space string;
          sign = (if S \<noteq> [] \<and> hd S = 0x2D then - 1 else 1 :: int);
          S = (if S \<noteq> [] \<and> (hd S = 0x2B \<or> hd S = 0x2D) then tl S else S);
          hex = (2 \<le> length S \<and> (take 2 S = js ''0x'' \<or> take 2 S = js ''0X''));
          R = (if hex then 16 else 10);
          S = (if hex then drop 2 S else S);
          Z = takeWhile (is_radix_digit R) S
      in if Z = [] then NaN else round_double (of_int (sign * int (math_int R Z))))"

text \<open>\<open>parseInt(x)\<close> of an array element: undefined reads as the string "undefined".\<close>

definition parseInt_elem :: "jsstring option \<Rightarrow> number" where
  "parseInt_elem x = (case x of None \<Rightarrow> parseInt (js ''undefined'') | Some s \<Rightarrow> parseInt s)"

section \<open>The rule set\<close>

datatype error = TypeError

record rule =
  rule_id :: nat
  description :: string
  validator :: "jsstring \<Rightarrow> bool"

text \<open>Rule 1: \<open>value.length >= 5\<close>.\<close>

definition validator1 :: "jsstring \<Rightarrow> bool" where
  "validator1 value = (length value \<ge> 5)"

text \<open>Rule 2: \<open>/[0-9]/.test(value)\<close>.\<close>

definition regexp2 :: regexp where
  "regexp2 = \<lparr>pattern = Class False [Range 0x30 0x39], ignoreCase = False\<rparr>"

definition validator2 :: "jsstring \<Rightarrow> bool" where
  "validator2 value = test regexp2 value"

text \<open>Rule 3: \<open>/[A-Z]/.test(value)\<close>.\<close>

definition regexp3 :: regexp where
  "regexp3 = \<lparr>pattern = Class False [Range 0x41 0x5A], ignoreCase = False\<rparr>"

definition validator3 :: "jsstring \<Rightarrow> bool" where
  "validator3 value = test regexp3 value"

text \<open>Rule 4: \<open>/[!@#$%^&*()]/.test(value)\<close>.\<close>

definition regexp4 :: regexp where
  "regexp4 = \<lparr>pattern = Class False (map Single (js ''!@#$%^&*()'')), ignoreCase = False\<rparr>"

definition validator4 :: "jsstring \<Rightarrow> bool" where
  "validator4 value = test regexp4 value"

text \<open>Rule 5: \<open>!/(.)\1{2}/.test(value)\<close>.\<close>

definition regexp5 :: regexp where
  "regexp5 = \<lparr>pattern = Seq (Group 1 Dot) (times 2 (Backref 1)), ignoreCase = False\<rparr>"

definition validator5 :: "jsstring \<Rightarrow> bool" where
  "validator5 value = (\<not> test regexp5 value)"

text \<open>
  Rule 6: the words are \<open>value.split(/\s+/)\<close>; a word counts when its
  \<open>cleaned\<close> form, \<open>word.toLowerCase().replace(/[^a-z]/g, '')\<close>, has at least three
  code units and equals \<open>cleaned.split('').reverse().join('')\<close>.
\<close>

definition regexp_spaces :: regexp where
  "regexp_spaces = \<lparr>pattern = plus Space, ignoreCase = False\<rparr>"

definition regexp_non_letter :: regexp where
  "regexp_non_letter = \<lparr>pattern = Class True [Range 0x61 0x7A], ignoreCase = False\<rparr>"

definition palindrome_word :: "jsstring \<Rightarrow> bool" where
  "palindrome_word word =
     (let cleaned = str_replace (toLowerCase word) regexp_non_letter []
      in length cleaned \<ge> 3 \<and> cleaned = join (reverse (split_units cleaned)))"

definition validator6 :: "jsstring \<Rightarrow> bool" where
  "validator6 value = (let words = str_split value regexp_spaces in list_ex palindrome_word words)"

text \<open>Rule 7: \<open>/\b(19\d{2}|20[0-2]\d)\b/.test(value)\<close>.\<close>

definition year_19xx :: regex where
  "year_19xx = Seq (lit ''19'') (times 2 Digit)"

definition year_20xx :: regex where
  "year_20xx = seqs [lit ''20'', Class False [Range 0x30 0x32], Digit]"

definition regexp7 :: regexp where
  "regexp7 =
     \<lparr>pattern = seqs [WordBoundary, Group 1 (Alt year_19xx year_20xx), WordBoundary],
      ignoreCase = False\<rparr>"

definition validator7 :: "jsstring \<Rightarrow> bool" where
  "validator7 value = test regexp7 value"

text \<open>
  Rule 8: one of the three couplet patterns, such as
  \<open>/\b(love|dove)\b.*\b(above|move)\b/i\<close>, matches.
\<close>

definition couplet :: "string \<Rightarrow> string \<Rightarrow> string \<Rightarrow> string \<Rightarrow> regexp" where
  "couplet a b c d =
     \<lparr>pattern =
        seqs [WordBoundary, Group 1 (Alt (lit a) (lit b)), WordBoundary, Star Dot,
              WordBoundary, Group 2 (Alt (lit c) (lit d)), WordBoundary],
      ignoreCase = True\<rparr>"

definition couplets :: "regexp list" where
  "couplets =
     [couplet ''love'' ''dove'' ''above'' ''move'',
      couplet ''heart'' ''smart'' ''art'' ''part'',
      couplet ''light'' ''bright'' ''height'' ''might'']"

definition validator8 :: "jsstring \<Rightarrow> bool" where
  "validator8 value = list_ex (\<lambda>couplet. test couplet value) couplets"

text \<open>
  Rule 9: \<open>value.match(/(\d+)\s*([+\-*/])\s*(\d+)\s*=\s*(\d+)/)\<close>; without a match
  the rule fails, otherwise the array is taken apart into \<open>a\<close>, \<open>op\<close>, \<open>b\<close>,
  \<open>result\<close> and the equation is computed on numbers. All of this stands in a
  \<open>try\<close> block whose handler returns false.
\<close>

definition regexp9 :: regexp where
  "regexp9 =
     \<lparr>pattern =
        seqs [Group 1 (plus Digit), Star Space,
              Group 2 (Class False [Single 0x2B, Single 0x2D, Single 0x2A, Single 0x2F]),
              Star Space, Group 3 (plus Digit), Star Space, Char 0x3D, Star Space,
              Group 4 (plus Digit)],
      ignoreCase = False\<rparr>"

text \<open>Taking an array apart by position; null in its place is a TypeError.\<close>

definition destructure :: "'a option list option \<Rightarrow> error + (nat \<Rightarrow> 'a option)" where
  "destructure m =
     (case m of
        None \<Rightarrow> Inl TypeError
      | Some arr \<Rightarrow> Inr (\<lambda>k. if k < length arr then arr ! k else None))"

definition validator9_try :: "jsstring \<Rightarrow> error + bool" where
  "validator9_try value =
     (let matches = str_match value regexp9 in
      if matches = None then Inr False
      else case destructure matches of
        Inl e \<Rightarrow> Inl e
      | Inr elem \<Rightarrow>
          let a = elem 1; op = elem 2; b = elem 3; result = elem 4 in
          if op = Some (js ''+'') then
            Inr (strict_eq (num_add (parseInt_elem a) (parseInt_elem b)) (parseInt_elem result))
          else if op = Some (js ''-'') then
            Inr (strict_eq (num_sub (parseInt_elem a) (parseInt_elem b)) (parseInt_elem result))
          else if op = Some (js ''*'') then
            Inr (strict_eq (num_mul (parseInt_elem a) (parseInt_elem b)) (parseInt_elem result))
          else if op = Some (js ''/'') then
            Inr (strict_eq (num_div (parseInt_elem a) (parseInt_elem b)) (parseInt_elem result))
          else Inr False)"

text \<open>\<open>try { ... } catch { return false; }\<close>.\<close>

definition try_catch_false :: "error + bool \<Rightarrow> bool" where
  "try_catch_false r = (case r of Inl e \<Rightarrow> False | Inr b \<Rightarrow> b)"

definition validator9 :: "jsstring \<Rightarrow> bool" where
  "validator9 value = try_catch_false (validator9_try value)"

text \<open>Rule 10: one of the four reference patterns, such as \<open>/einstein.*relativity/i\<close>, matches.\<close>

definition historicalReferences :: "regexp list" where
  "historicalReferences =
     [\<lparr>pattern = seqs [lit ''einstein'', Star Dot, lit ''relativity''], ignoreCase = True\<rparr>,
      \<lparr>pattern = seqs [lit ''newton'', Star Dot, lit ''gravity''], ignoreCase = True\<rparr>,
      \<lparr>pattern = seqs [lit ''marie'', Star Space, lit ''curie'', Star Dot, lit ''radioactivity''],
       ignoreCase = True\<rparr>,
      \<lparr>pattern = seqs [lit ''tesla'', Star Dot, lit ''electricity''], ignoreCase = True\<rparr>]"

definition validator10 :: "jsstring \<Rightarrow> bool" where
  "validator10 value = list_ex (\<lambda>ref. test ref value) historicalReferences"

definition rules :: "rule list" where
  "rules =
     [\<lparr>rule_id = 1, description = ''Your password must be at least 5 characters.'',
       validator = validator1\<rparr>,
      \<lparr>rule_id = 2, description = ''Your password must include a number.'',
       validator = validator2\<rparr>,
      \<lparr>rule_id = 3, description = ''Your password must include an uppercase letter'',
       validator = validator3\<rparr>,
      \<lparr>rule_id = 4, description = ''Your password must include a special character (!@#$%^&*())'',
       validator = validator4\<rparr>,
      \<lparr>rule_id = 5, description = ''Your password cannot have 3 consecutive repeated characters'',
       validator = validator5\<rparr>,
      \<lparr>rule_id = 6, description = ''Your password must contain a palindrome word (min 3 letters)'',
       validator = validator6\<rparr>,
      \<lparr>rule_id = 7, description = ''Your password must include a year between 1900 and 2024'',
       validator = validator7\<rparr>,
      \<lparr>rule_id = 8,
       description = ''Your password must include lyrics that form a complete rhyming couplet'',
       validator = validator8\<rparr>,
      \<lparr>rule_id = 9,
       description =
         ''Your password must contain a mathematical equation that resolves to an integer'',
       validator = validator9\<rparr>,
      \<lparr>rule_id = 10,
       description =
         ''Your password must reference a famous historical figure and their significant achievement'',
       validator = validator10\<rparr>]"

section \<open>The reveal engine\<close>

text \<open>
  The test the engine makes of one rule: \<open>rules.find((rule) => rule.id === i)\<close>, and
  the validator of the rule found; no rule found counts as not satisfied.
\<close>

definition evaluate :: "rule list \<Rightarrow> nat \<Rightarrow> jsstring \<Rightarrow> bool" where
  "evaluate rs i password =
     (case find (\<lambda>rule. rule_id rule = i) rs of
        None \<Rightarrow> False
      | Some currentRule \<Rightarrow> validator currentRule password)"

text \<open>\<open>a.includes(x)\<close>.\<close>

definition array_includes :: "'a list \<Rightarrow> 'a \<Rightarrow> bool" where
  "array_includes a x = (x \<in> set a)"

text \<open>
  \<open>updateVisibleRules\<close>: the new value of the state \<open>visibleRules\<close>, from the
  password and the previous value. The rule list is the \<open>rules\<close> of the component.
\<close>

definition updateVisibleRules :: "rule list \<Rightarrow> jsstring \<Rightarrow> nat list \<Rightarrow> nat list" where
  "updateVisibleRules rs password prevVisibleRules =
     (if password = [] then []
      else if length prevVisibleRules = 0 then [1]
      else
        let lastVisibleRule = prevVisibleRules ! (length prevVisibleRules - 1);
            currentRule = find (\<lambda>rule. rule_id rule = lastVisibleRule) rs
        in case currentRule of
             None \<Rightarrow> prevVisibleRules
           | Some cr \<Rightarrow>
               if validator cr password then
                 let nextRuleId = lastVisibleRule + 1 in
                 if nextRuleId \<le> length rs \<and> \<not> array_includes prevVisibleRules nextRuleId
                 then prevVisibleRules @ [nextRuleId]
                 else prevVisibleRules
               else prevVisibleRules)"

text \<open>The state after a sequence of password values, from the initial empty state.\<close>

definition run :: "rule list \<Rightarrow> jsstring list \<Rightarrow> nat list" where
  "run rs passwords = foldl (\<lambda>visibleRules password. updateVisibleRules rs password visibleRules) [] passwords"

text \<open>The two groups that are rendered, \<open>rules.filter(...)\<close> each.\<close>

definition fulfilledRules :: "rule list \<Rightarrow> nat list \<Rightarrow> jsstring \<Rightarrow> rule list" where
  "fulfilledRules rs visibleRules password =
     filter (\<lambda>rule. array_includes visibleRules (rule_id rule) \<and> validator rule password) rs"

definition unfulfilledRules :: "rule list \<Rightarrow> nat list \<Rightarrow> jsstring \<Rightarrow> rule list" where
  "unfulfilledRules rs visibleRules password =
     filter (\<lambda>rule. array_includes visibleRules (rule_id rule) \<and> \<not> validator rule password) rs"

text \<open>The visible states that are a prefix \<open>1, ..., k\<close> of the rule ids, \<open>k\<close> at most \<open>N\<close>.\<close>

definition prefix_state :: "nat \<Rightarrow> nat list \<Rightarrow> bool" where
  "prefix_state N v = (\<exists>k\<le>N. v = [1..<Suc k])"

section \<open>Notions used in the statements\<close>

text \<open>
  The index \<open>i\<close> lies at a word boundary of \<open>s\<close>: exactly one of the code units
  before and after it is a word character.
\<close>

definition boundary :: "jsstring \<Rightarrow> nat \<Rightarrow> bool" where
  "boundary s i =
     ((0 < i \<and> i \<le> length s \<and> is_word_char (s ! (i - 1))) \<noteq> (i < length s \<and> is_word_char (s ! i)))"

text \<open>The four code units from \<open>i\<close> on read \<open>19dd\<close>, or \<open>20dd\<close> with the first \<open>d\<close> at most 2.\<close>

definition year_at :: "jsstring \<Rightarrow> nat \<Rightarrow> bool" where
  "year_at s i =
     (i + 4 \<le> length s \<and>
      ((s ! i = 0x31 \<and> s ! (i + 1) = 0x39 \<and> is_digit (s ! (i + 2)) \<and> is_digit (s ! (i + 3)))
       \<or> (s ! i = 0x32 \<and> s ! (i + 1) = 0x30 \<and> in_range 0x30 0x32 (s ! (i + 2)) \<and> is_digit (s ! (i + 3)))))"

text \<open>The value of a decimal digit, and of a string of decimal digits.\<close>

definition digit_of :: "code_unit \<Rightarrow> nat" where
  "digit_of c = unat c - 48"

definition decimal_value :: "jsstring \<Rightarrow> nat" where
  "decimal_value w = foldl (\<lambda>acc c. 10 * acc + (unat c - 48)) 0 w"

text \<open>A token of four digits that reads a year from 1900 to 1999 or from 2000 to 2029.\<close>

definition year_token :: "jsstring \<Rightarrow> bool" where
  "year_token w =
     (length w = 4 \<and> list_all is_digit w
      \<and> ((1900 \<le> decimal_value w \<and> decimal_value w \<le> 1999)
         \<or> (2000 \<le> decimal_value w \<and> decimal_value w \<le> 2029)))"

text \<open>
  The \<open>n\<close> code units from \<open>i\<close> on stand as a whole word: no word character comes
  right before them and none right after.
\<close>

definition whole_word :: "jsstring \<Rightarrow> nat \<Rightarrow> nat \<Rightarrow> bool" where
  "whole_word s i n =
     ((i = 0 \<or> \<not> is_word_char (s ! (i - 1))) \<and> (i + n = length s \<or> \<not> is_word_char (s ! (i + n))))"

section \<open>Evaluation of concrete inputs\<close>

lemma bitlen_One: "bitlen 1 = 1"
  by (subst compute_bitlen) simp

lemma bitlen_Bit0: "bitlen (numeral (Num.Bit0 n)) = bitlen (numeral n) + 1"
  by (subst compute_bitlen) simp

lemma bitlen_Bit1: "bitlen (numeral (Num.Bit1 n)) = bitlen (numeral n) + 1"
  by (subst compute_bitlen) simp

lemma floor_rat_numeral: "\<lfloor>numeral a / numeral b :: rat\<rfloor> = numeral a div numeral b"
  by (metis floor_divide_of_int_eq of_int_numeral)

lemma floor_rat_numeral1: "\<lfloor>1 / numeral b :: rat\<rfloor> = 1 div numeral b"
  by (metis floor_divide_of_int_eq of_int_numeral of_int_1)

lemma times_2: "times 2 r = Seq r r"
  by (simp add: numeral_2_eq_2)

lemmas eval_chars = js_def in_range_def is_digit_def is_space_def is_line_terminator_def
  is_word_char_def word_at_def canonicalize_def

lemmas eval_regexp = eval_chars test_def exec_def match_at_def str_match_def plus_def times_2
  rmatch_Star year_19xx_def year_20xx_def split_loop.simps replace_loop.simps

lemmas eval_number = eval_chars parseInt_def parseInt_elem_def is_radix_digit_def digit_value_def
  math_int_def round_double_def log2_floor_def round_half_even_def num_sub_def Let_def
  bitlen_One bitlen_Bit0 bitlen_Bit1 floor_rat_numeral floor_rat_numeral1

section \<open>The reveal engine: one update, and the reachable states\<close>

lemma last_sorted_Max:
  "sorted_wrt (<) (xs :: nat list) \<Longrightarrow> xs \<noteq> [] \<Longrightarrow> xs ! (length xs - 1) = Max (set xs)"
proof -
  assume s: "sorted_wrt (<) xs" and ne: "xs \<noteq> []"
  have "xs ! (length xs - 1) = last xs"
    using ne by (simp add: last_conv_nth)
  moreover have "last xs = Max (set xs)"
  proof (rule sym, rule Max_eqI)
    show "finite (set xs)" by simp
    show "last xs \<in> set xs" using ne by simp
    fix y assume "y \<in> set xs"
    then obtain i where i: "i < length xs" "xs ! i = y"
      by (auto simp: in_set_conv_nth)
    show "y \<le> last xs"
    proof (cases "i = length xs - 1")
      case True
      with i ne show ?thesis by (simp add: last_conv_nth)
    next
      case False
      with i have "i < length xs - 1" by simp
      with i have "xs ! i < xs ! (length xs - 1)"
        using sorted_wrt_nth_less [OF s, of i "length xs - 1"] by simp
      with i ne show ?thesis by (simp add: last_conv_nth)
    qed
  qed
  ultimately show ?thesis by simp
qed

lemma updateVisibleRules_by_evaluate:
  "updateVisibleRules rs password prev =
     (if password = [] then []
      else if prev = [] then [1]
      else let l = prev ! (length prev - 1) in
           if evaluate rs l password \<and> l + 1 \<le> length rs \<and> l + 1 \<notin> set prev
           then prev @ [l + 1] else prev)"
  by (simp add: updateVisibleRules_def evaluate_def array_includes_def Let_def split: option.splits)

text \<open>
  C1. On a visible-id list as the data model has it (strictly increasing), an update
  gives the empty list for the empty input; \<open>[1]\<close> for a non-empty input and an empty
  list, whatever rule 1 says of the input; and otherwise, with \<open>last\<close> the maximum of
  the list, it appends \<open>last + 1\<close> exactly when \<open>evaluate last input\<close> holds,
  \<open>last + 1 \<le> N\<close> and \<open>last + 1\<close> is not yet visible, and returns the list unchanged
  in every other case.
\<close>

theorem updateVisibleRules_cases:
  assumes "sorted_wrt (<) prev"
  shows "updateVisibleRules rs password prev =
     (if password = [] then []
      else if prev = [] then [1]
      else if evaluate rs (Max (set prev)) password \<and> Max (set prev) + 1 \<le> length rs
              \<and> Max (set prev) + 1 \<notin> set prev
           then prev @ [Max (set prev) + 1] else prev)"
proof (cases "prev = []")
  case True
  then show ?thesis by (simp add: updateVisibleRules_by_evaluate)
next
  case False
  with assms have "prev ! (length prev - 1) = Max (set prev)"
    by (rule last_sorted_Max)
  then show ?thesis
    by (simp add: updateVisibleRules_by_evaluate Let_def)
qed

theorem updateVisibleRules_cases_witness:
  "sorted_wrt (<) [1 :: nat]
   \<and> updateVisibleRules rules (js ''abcde'') [1] = [1, 2]
   \<and> updateVisibleRules rules (js ''abcd'') [1] = [1]"
proof -
  have s: "sorted_wrt (<) [1 :: nat]"
    by simp
  have e: "evaluate rules 1 (js ''abcde'')" "\<not> evaluate rules 1 (js ''abcd'')"
    by (simp_all add: evaluate_def rules_def validator1_def js_def)
  have n: "js ''abcde'' \<noteq> []" "js ''abcd'' \<noteq> []" "length rules = 10"
    by (simp_all add: js_def rules_def)
  from updateVisibleRules_cases [OF s, of rules "js ''abcde''"]
    updateVisibleRules_cases [OF s, of rules "js ''abcd''"] e n s
  show ?thesis by simp
qed

lemma update_extends:
  "password \<noteq> [] \<Longrightarrow> \<exists>xs. updateVisibleRules rs password prev = prev @ xs \<and> length xs \<le> 1"
  by (auto simp: updateVisibleRules_by_evaluate Let_def)
lemma update_prefix_state:
  assumes "rs \<noteq> []" "prefix_state (length rs) v"
  shows "prefix_state (length rs) (updateVisibleRules rs password v)"
proof -
  from assms(2) obtain k where k: "k \<le> length rs" "v = [1..<Suc k]"
    by (auto simp: prefix_state_def)
  show ?thesis
  proof (cases "password = [] \<or> v = []")
    case True
    then consider "password = []" | "password \<noteq> []" "v = []" by blast
    then show ?thesis
    proof cases
      case 1
      then have "updateVisibleRules rs password v = [1..<Suc 0]"
        by (simp add: updateVisibleRules_by_evaluate)
      then show ?thesis unfolding prefix_state_def by blast
    next
      case 2
      then have "updateVisibleRules rs password v = [1..<Suc 1]"
        by (simp add: updateVisibleRules_by_evaluate)
      moreover from assms(1) have "1 \<le> length rs"
        by (cases rs) simp_all
      ultimately show ?thesis unfolding prefix_state_def by blast
    qed
  next
    case False
    with k have k0: "0 < k" by (cases k) simp_all
    with k have "last v = k" "v \<noteq> []" by simp_all
    then have l: "v ! (length v - 1) = k" by (simp add: last_conv_nth)
    from False l have "updateVisibleRules rs password v = v
        \<or> (k + 1 \<le> length rs \<and> updateVisibleRules rs password v = v @ [k + 1])"
      by (simp add: updateVisibleRules_by_evaluate Let_def)
    then show ?thesis
    proof
      assume "updateVisibleRules rs password v = v"
      with assms(2) show ?thesis by simp
    next
      assume a: "k + 1 \<le> length rs \<and> updateVisibleRules rs password v = v @ [k + 1]"
      with k k0 have "updateVisibleRules rs password v = [1..<Suc (k + 1)]"
        by simp
      with a show ?thesis unfolding prefix_state_def by blast
    qed
  qed
qed

lemma run_snoc: "run rs (ps @ [p]) = updateVisibleRules rs p (run rs ps)"
  by (simp add: run_def)

lemma run_prefix_state: "rs \<noteq> [] \<Longrightarrow> prefix_state (length rs) (run rs ps)"
proof (induction ps rule: rev_induct)
  case Nil
  have "run rs [] = [1..<Suc 0]" by (simp add: run_def)
  then show ?case unfolding prefix_state_def by blast
next
  case (snoc p ps)
  then show ?case by (simp add: run_snoc update_prefix_state)
qed

text \<open>
  C2. An update on a non-empty input keeps the previous visible list and adds at most
  one id at its end; and every state reached from the empty state, by any sequence of
  inputs, is the strictly increasing list \<open>1, ..., k\<close> of some \<open>k \<le> N\<close> (for a rule
  set of \<open>N \<ge> 1\<close> rules).
\<close>

theorem reveal_monotone_prefix:
  "(password \<noteq> [] \<longrightarrow>
      (\<exists>xs. updateVisibleRules rs password prev = prev @ xs \<and> length xs \<le> 1))
   \<and> (rs \<noteq> [] \<longrightarrow> (\<exists>k\<le>length rs. run rs passwords = [1..<Suc k]))"
  using update_extends [of password rs prev] run_prefix_state [of rs passwords]
  by (simp add: prefix_state_def)

theorem reveal_monotone_prefix_witness:
  "js ''abcde'' \<noteq> [] \<and> rules \<noteq> []
   \<and> (\<exists>xs. updateVisibleRules rules (js ''abcde'') [1] = [1] @ xs \<and> length xs \<le> 1)
   \<and> (\<exists>k\<le>length rules. run rules [js ''a'', js ''abcde'', js ''abcde1''] = [1..<Suc k])
   \<and> run rules [js ''a'', js ''abcde'', js ''abcde1''] = [1, 2, 3]"
proof -
  have n: "js ''abcde'' \<noteq> []" "rules \<noteq> []"
    by (simp_all add: js_def rules_def)
  have r: "run rules [js ''a'', js ''abcde'', js ''abcde1''] = [1, 2, 3]"
    by (simp add: run_def updateVisibleRules_def array_includes_def rules_def validator1_def
        validator2_def regexp2_def eval_regexp)
  from reveal_monotone_prefix [of "js ''abcde''" rules "[1]" "[js ''a'', js ''abcde'', js ''abcde1'']"]
    n r
  show ?thesis by simp
qed

section \<open>The two rendered groups\<close>

lemma find_own_id:
  "distinct (map rule_id rs) \<Longrightarrow> r \<in> set rs \<Longrightarrow> find (\<lambda>x. rule_id x = rule_id r) rs = Some r"
proof (induction rs)
  case Nil
  then show ?case by simp
next
  case (Cons x rs)
  show ?case
  proof (cases "rule_id x = rule_id r")
    case True
    with Cons.prems have "x = r" by force
    then show ?thesis by simp
  next
    case False
    with Cons show ?thesis by auto
  qed
qed

lemma evaluate_own_id:
  "distinct (map rule_id rs) \<Longrightarrow> r \<in> set rs \<Longrightarrow> evaluate rs (rule_id r) password = validator r password"
  by (simp add: evaluate_def find_own_id)

lemma sorted_ids_filter:
  "sorted_wrt (<) (map rule_id rs) \<Longrightarrow> sorted_wrt (<) (map rule_id (filter P rs))"
  by (induction rs) auto

text \<open>
  C8. For every visible-id list and every input, over a rule list in ascending id order:
  the failing and the passing group are disjoint, together they are exactly the rules
  whose id is visible, \<open>evaluate\<close> is false on each rule of the failing group and true
  on each rule of the passing group, and each group lists its rules in ascending id order.
\<close>

theorem partition_groups:
  assumes "sorted_wrt (<) (map rule_id rs)"
  shows "set (unfulfilledRules rs visibleRules password) \<inter> set (fulfilledRules rs visibleRules password) = {}
    \<and> set (unfulfilledRules rs visibleRules password) \<union> set (fulfilledRules rs visibleRules password)
        = {r \<in> set rs. rule_id r \<in> set visibleRules}
    \<and> (\<forall>r \<in> set (unfulfilledRules rs visibleRules password). \<not> evaluate rs (rule_id r) password)
    \<and> (\<forall>r \<in> set (fulfilledRules rs visibleRules password). evaluate rs (rule_id r) password)
    \<and> sorted_wrt (<) (map rule_id (unfulfilledRules rs visibleRules password))
    \<and> sorted_wrt (<) (map rule_id (fulfilledRules rs visibleRules password))"
proof -
  from assms have d: "distinct (map rule_id rs)"
    by (simp add: strict_sorted_iff)
  have disj: "set (unfulfilledRules rs visibleRules password) \<inter> set (fulfilledRules rs visibleRules password) = {}"
    by (auto simp: unfulfilledRules_def fulfilledRules_def)
  have un: "set (unfulfilledRules rs visibleRules password) \<union> set (fulfilledRules rs visibleRules password)
        = {r \<in> set rs. rule_id r \<in> set visibleRules}"
    by (auto simp: unfulfilledRules_def fulfilledRules_def array_includes_def)
  have f: "\<forall>r \<in> set (unfulfilledRules rs visibleRules password). \<not> evaluate rs (rule_id r) password"
    using d by (simp add: unfulfilledRules_def evaluate_own_id)
  have p: "\<forall>r \<in> set (fulfilledRules rs visibleRules password). evaluate rs (rule_id r) password"
    using d by (simp add: fulfilledRules_def evaluate_own_id)
  have s1: "sorted_wrt (<) (map rule_id (unfulfilledRules rs visibleRules password))"
    unfolding unfulfilledRules_def using assms by (rule sorted_ids_filter)
  have s2: "sorted_wrt (<) (map rule_id (fulfilledRules rs visibleRules password))"
    unfolding fulfilledRules_def using assms by (rule sorted_ids_filter)
  from disj un f p s1 s2 show ?thesis by blast
qed

theorem partition_groups_witness:
  "sorted_wrt (<) (map rule_id rules)
   \<and> map rule_id (unfulfilledRules rules [1, 2] (js ''abcde'')) = [2]
   \<and> map rule_id (fulfilledRules rules [1, 2] (js ''abcde'')) = [1]
   \<and> \<not> evaluate rules 2 (js ''abcde'') \<and> evaluate rules 1 (js ''abcde'')"
proof -
  have s: "sorted_wrt (<) (map rule_id rules)"
    by (simp add: rules_def)
  have u: "map rule_id (unfulfilledRules rules [1, 2] (js ''abcde'')) = [2]"
    by (simp add: unfulfilledRules_def array_includes_def rules_def validator1_def validator2_def regexp2_def eval_regexp)
  have f: "map rule_id (fulfilledRules rules [1, 2] (js ''abcde'')) = [1]"
    by (simp add: fulfilledRules_def array_includes_def rules_def validator1_def validator2_def regexp2_def eval_regexp)
  have r2: "rules ! 1 \<in> set (unfulfilledRules rules [1, 2] (js ''abcde''))"
    by (simp add: unfulfilledRules_def array_includes_def rules_def validator1_def validator2_def regexp2_def eval_regexp)
  have r1: "rules ! 0 \<in> set (fulfilledRules rules [1, 2] (js ''abcde''))"
    by (simp add: fulfilledRules_def array_includes_def rules_def validator1_def validator2_def regexp2_def eval_regexp)
  from partition_groups [OF s, of "[1, 2]" "js ''abcde''"] r1 r2
  have "\<not> evaluate rules (rule_id (rules ! 1)) (js ''abcde'')"
    "evaluate rules (rule_id (rules ! 0)) (js ''abcde'')"
    by blast+
  then have "\<not> evaluate rules 2 (js ''abcde'')" "evaluate rules 1 (js ''abcde'')"
    by (simp_all add: rules_def)
  with s u f show ?thesis by blast
qed

section \<open>Matching: general facts\<close>

lemma exec_from_None_iff:
  "exec_from re s is = None \<longleftrightarrow> (\<forall>i\<in>set is. match_at re s i = None)"
  by (induction "is") (auto split: option.splits)

lemma test_iff: "test re s \<longleftrightarrow> (\<exists>i\<le>length s. match_at re s i \<noteq> None)"
  by (simp add: test_def exec_def exec_from_None_iff Bex_def less_Suc_eq_le del: upt_Suc not_None_eq)

lemma take_Suc0_drop: "take (Suc 0) (drop i s) = (if i < length s then [s ! i] else [])"
  by (cases "i < length s") (simp_all add: take_Suc_conv_app_nth)

lemma take_one_eq_iff:
  "take (Suc 0) (drop i s) = [a] \<longleftrightarrow> i < length s \<and> s ! i = a"
  by (simp add: take_Suc0_drop)

section \<open>Rule 5\<close>

lemma match5_iff:
  "match_at regexp5 s i \<noteq> None \<longleftrightarrow>
     i + 2 < length s \<and> \<not> is_line_terminator (s ! i) \<and> s ! (i + 1) = s ! i \<and> s ! (i + 2) = s ! i"
  by (auto simp: match_at_def regexp5_def times_2 take_Suc0_drop split: list.splits if_splits)

lemma validator5_iff:
  "validator5 s \<longleftrightarrow>
     \<not> (\<exists>i. i + 2 < length s \<and> \<not> is_line_terminator (s ! i) \<and> s ! (i + 1) = s ! i \<and> s ! (i + 2) = s ! i)"
  unfolding validator5_def test_iff match5_iff by auto

text \<open>
  C5. Rule 5 is meant to fail on every run of three identical code units. The pattern
  character \<open>.\<close> does not match a line terminator, so a run of line terminators goes
  unnoticed: on three LINE SEPARATOR code units, and on three line feeds, rule 5
  evaluates to true.
\<close>

theorem validator5_line_separators:
  "validator5 [0x2028, 0x2028, 0x2028] \<and> validator5 [0x000A, 0x000A, 0x000A]"
  by (simp add: validator5_def regexp5_def eval_regexp)

section \<open>Rule 7\<close>

lemma word_at_nat: "word_at s (int i) = (i < length s \<and> is_word_char (s ! i))"
  by (simp add: word_at_def)

lemma word_at_pred: "word_at s (int i - 1) = (0 < i \<and> i \<le> length s \<and> is_word_char (s ! (i - 1)))"
  by (cases i) (auto simp: word_at_def nat_diff_distrib)

lemma digit_word_char: "is_digit c \<Longrightarrow> is_word_char c"
  by (simp add: is_digit_def is_word_char_def)

lemma rmatch_year19:
  "rmatch False year_19xx s (i, c) =
     (if i + 4 \<le> length s \<and> s ! i = 0x31 \<and> s ! (i + 1) = 0x39 \<and> is_digit (s ! (i + 2))
         \<and> is_digit (s ! (i + 3))
      then [(i + 4, c)] else [])"
  by (auto simp: year_19xx_def times_2 canonicalize_def numeral_eq_Suc)

lemma rmatch_year20:
  "rmatch False year_20xx s (i, c) =
     (if i + 4 \<le> length s \<and> s ! i = 0x32 \<and> s ! (i + 1) = 0x30 \<and> in_range 0x30 0x32 (s ! (i + 2))
         \<and> is_digit (s ! (i + 3))
      then [(i + 4, c)] else [])"
  by (auto simp: year_20xx_def canonicalize_def numeral_eq_Suc)

lemma rmatch_year_group:
  "rmatch False (Group k (Alt year_19xx year_20xx)) s (i, c) =
     (if year_at s i then [(i + 4, c(k \<mapsto> take 4 (drop i s)))] else [])"
  by (auto simp: rmatch_year19 rmatch_year20 year_at_def)

lemma rmatch_WordBoundary:
  "rmatch ic WordBoundary s (i, c) = (if boundary s i then [(i, c)] else [])"
  by (simp add: boundary_def word_at_nat word_at_pred)

lemma match7:
  "match_at regexp7 s i =
     (if boundary s i \<and> year_at s i \<and> boundary s (i + 4)
      then Some (i + 4, [1 \<mapsto> take 4 (drop i s)]) else None)"
  by (simp add: match_at_def regexp7_def rmatch_year_group rmatch_WordBoundary del: rmatch.simps(7,9))

lemma match7_iff:
  "match_at regexp7 s i \<noteq> None \<longleftrightarrow>
     year_at s i \<and> (i = 0 \<or> \<not> is_word_char (s ! (i - 1)))
       \<and> (i + 4 = length s \<or> \<not> is_word_char (s ! (i + 4)))"
proof (cases "year_at s i")
  case False
  then show ?thesis by (simp add: match7)
next
  case True
  then have len: "i + 4 \<le> length s" and d: "is_digit (s ! i)" "is_digit (s ! (i + 3))"
    by (auto simp: year_at_def is_digit_def in_range_def)
  from d have w: "is_word_char (s ! i)" "is_word_char (s ! (i + 4 - 1))"
    by (simp_all add: digit_word_char add.commute)
  have b: "boundary s i \<longleftrightarrow> (i = 0 \<or> \<not> is_word_char (s ! (i - 1)))"
    using len w(1) by (auto simp: boundary_def)
  have a: "boundary s (i + 4) \<longleftrightarrow> (i + 4 = length s \<or> \<not> is_word_char (s ! (i + 4)))"
    using len w(2) by (auto simp: boundary_def)
  have "match_at regexp7 s i \<noteq> None \<longleftrightarrow> boundary s i \<and> year_at s i \<and> boundary s (i + 4)"
    by (simp add: match7)
  with True a b show ?thesis by blast
qed

lemma validator7_iff:
  "validator7 s \<longleftrightarrow>
     (\<exists>i. year_at s i \<and> (i = 0 \<or> \<not> is_word_char (s ! (i - 1)))
       \<and> (i + 4 = length s \<or> \<not> is_word_char (s ! (i + 4))))"
proof -
  have "year_at s i \<Longrightarrow> i \<le> length s" for i
    by (simp add: year_at_def)
  then show ?thesis
    unfolding validator7_def test_iff match7_iff by blast
qed

lemma is_digit_unat: "is_digit c \<longleftrightarrow> 48 \<le> unat c \<and> unat c \<le> 57"
  by (simp add: is_digit_def in_range_def word_le_nat_alt)

lemma digit_of_le: "is_digit c \<Longrightarrow> digit_of c \<le> 9"
  by (auto simp: is_digit_unat digit_of_def)

lemma unit_is_digit_iff:
  "c = 0x30 \<longleftrightarrow> is_digit c \<and> digit_of c = 0"
  "c = 0x31 \<longleftrightarrow> is_digit c \<and> digit_of c = 1"
  "c = 0x32 \<longleftrightarrow> is_digit c \<and> digit_of c = 2"
  "c = 0x39 \<longleftrightarrow> is_digit c \<and> digit_of c = 9"
  "in_range 0x30 0x32 c \<longleftrightarrow> is_digit c \<and> digit_of c \<le> 2"
  by (auto simp: is_digit_unat digit_of_def word_unat_eq_iff in_range_def word_le_nat_alt)

lemma take4_drop:
  assumes "i + 4 \<le> length s"
  shows "take 4 (drop i s) = [s ! i, s ! (i + 1), s ! (i + 2), s ! (i + 3)]"
proof -
  have "length (take 4 (drop i s)) = 4"
    using assms by simp
  moreover have "take 4 (drop i s) ! k = s ! (i + k)" if "k < 4" for k
    using that assms by simp
  ultimately show ?thesis
    by (simp add: list_eq_iff_nth_eq less_Suc_eq numeral_eq_Suc) 
qed

lemma year_range_19:
  assumes "a \<le> 9" "b \<le> 9" "c \<le> 9" "d \<le> (9 :: nat)"
  shows "(1900 \<le> 10 * (10 * (10 * a + b) + c) + d \<and> 10 * (10 * (10 * a + b) + c) + d \<le> 1999)
       \<longleftrightarrow> a = 1 \<and> b = 9"
proof
  assume h: "1900 \<le> 10 * (10 * (10 * a + b) + c) + d \<and> 10 * (10 * (10 * a + b) + c) + d \<le> 1999"
  have "19 \<le> 10 * a + b" using h assms by simp
  moreover have "10 * a + b \<le> 19" using h assms by simp
  ultimately have m: "10 * a + b = 19" by simp
  have "1 \<le> a" using m assms by simp
  moreover have "a \<le> 1" using m assms by simp
  ultimately have "a = 1" by simp
  with m show "a = 1 \<and> b = 9" by simp
next
  assume "a = 1 \<and> b = 9"
  with assms show "1900 \<le> 10 * (10 * (10 * a + b) + c) + d \<and> 10 * (10 * (10 * a + b) + c) + d \<le> 1999"
    by simp
qed

lemma year_range_20:
  assumes "a \<le> 9" "b \<le> 9" "c \<le> 9" "d \<le> (9 :: nat)"
  shows "(2000 \<le> 10 * (10 * (10 * a + b) + c) + d \<and> 10 * (10 * (10 * a + b) + c) + d \<le> 2029)
       \<longleftrightarrow> a = 2 \<and> b = 0 \<and> c \<le> 2"
proof
  assume h: "2000 \<le> 10 * (10 * (10 * a + b) + c) + d \<and> 10 * (10 * (10 * a + b) + c) + d \<le> 2029"
  have "20 \<le> 10 * a + b" using h assms by simp
  moreover have "10 * a + b \<le> 20" using h assms by simp
  ultimately have m: "10 * a + b = 20" by simp
  have "2 \<le> a" using m assms by simp
  moreover have "a \<le> 2" using m assms by simp
  ultimately have a: "a = 2" by simp
  with m have b: "b = 0" by simp
  have "c \<le> 2" using h a b by simp
  with a b show "a = 2 \<and> b = 0 \<and> c \<le> 2" by simp
next
  assume "a = 2 \<and> b = 0 \<and> c \<le> 2"
  with assms show "2000 \<le> 10 * (10 * (10 * a + b) + c) + d \<and> 10 * (10 * (10 * a + b) + c) + d \<le> 2029"
    by simp
qed

lemma decimal_value4:
  "decimal_value [a, b, c, d] = 10 * (10 * (10 * digit_of a + digit_of b) + digit_of c) + digit_of d"
  by (simp add: decimal_value_def digit_of_def)

lemma year_token4:
  "year_token [a, b, c, d] \<longleftrightarrow>
     (a = 0x31 \<and> b = 0x39 \<and> is_digit c \<and> is_digit d)
     \<or> (a = 0x32 \<and> b = 0x30 \<and> in_range 0x30 0x32 c \<and> is_digit d)"
proof (cases "is_digit a \<and> is_digit b \<and> is_digit c \<and> is_digit d")
  case False
  then show ?thesis
    by (auto simp: year_token_def unit_is_digit_iff)
next
  case True
  then have le: "digit_of a \<le> 9" "digit_of b \<le> 9" "digit_of c \<le> 9" "digit_of d \<le> 9"
    by (simp_all add: digit_of_le)
  show ?thesis
    unfolding year_token_def decimal_value4 year_range_19 [OF le] year_range_20 [OF le]
    using True by (auto simp: unit_is_digit_iff)
qed

lemma year_at_token:
  "year_at s i \<longleftrightarrow> i + 4 \<le> length s \<and> year_token (take 4 (drop i s))"
proof (cases "i + 4 \<le> length s")
  case False
  then show ?thesis by (simp add: year_at_def)
next
  case True
  show ?thesis
    unfolding year_at_def take4_drop [OF True] year_token4 using True by simp
qed

text \<open>
  C7. Rule 7 holds exactly when some four code units of the input, standing as a whole
  word, are a token of four digits that reads a year from 1900 to 1999 or from 2000 to
  2029.
\<close>

theorem validator7_years:
  "validator7 s \<longleftrightarrow>
     (\<exists>i. i + 4 \<le> length s \<and> year_token (take 4 (drop i s)) \<and> whole_word s i 4)"
  unfolding validator7_iff year_at_token whole_word_def by blast

theorem validator7_years_witness:
  "validator7 (js ''in 1999!'')
   \<and> (\<exists>i. i + 4 \<le> length (js ''in 1999!'') \<and> year_token (take 4 (drop i (js ''in 1999!'')))
         \<and> whole_word (js ''in 1999!'') i 4)
   \<and> \<not> validator7 (js ''2030 x2024'')
   \<and> \<not> (\<exists>i. i + 4 \<le> length (js ''2030 x2024'') \<and> year_token (take 4 (drop i (js ''2030 x2024'')))
         \<and> whole_word (js ''2030 x2024'') i 4)"
proof -
  have "validator7 (js ''in 1999!'')" "\<not> validator7 (js ''2030 x2024'')"
    by (simp_all add: validator7_def regexp7_def eval_regexp)
  with validator7_years [of "js ''in 1999!''"] validator7_years [of "js ''2030 x2024''"]
  show ?thesis by blast
qed

end
